theory Spec2Isabelle
  imports Complex_Main "HOL-Library.Sublist" "HOL-Library.Word"
begin

section \<open>Image compression (imageCompression.ts)\<close>

text \<open>
  Modelling conventions.
  \<^item> JavaScript numbers are modelled as exact rationals (\<open>rat\<close>); byte sizes and the
    natural dimensions of a decoded image are natural numbers.
  \<^item> A \<open>File\<close> or \<open>Blob\<close> is its name, its MIME type and its bytes; \<open>file.size\<close> is the
    number of bytes.
  \<^item> The browser primitives are parameters, functions of their arguments that answer
    once and do not throw: \<open>loadImage\<close> is the decode started by
    \<open>img.src = URL.createObjectURL(file)\<close> (\<open>None\<close> is \<open>img.onerror\<close>, \<open>Some (w, h)\<close> is
    \<open>img.onload\<close> with the natural width and height), and \<open>toBlob\<close> is
    \<open>canvas.toBlob(callback, mime, quality)\<close> on the canvas holding the image drawn at the
    given width and height (\<open>None\<close> is the callback called with \<open>null\<close>).
  \<^item> A rejected promise or a thrown exception is \<open>Inl\<close>, a resolved promise is \<open>Inr\<close>.
  \<^item> Every function also returns the list of events it caused, in order: the
    \<open>console.log\<close> at the entry of \<open>compressImage\<close> (with the quality and the size
    ceiling it was called with), each image decode and each encode.
\<close>

type_synonym byte = "8 word"

record File =
  file_name :: string
  file_type :: string
  file_bytes :: "byte list"

definition file_size :: "File \<Rightarrow> nat" where
  "file_size f = length (file_bytes f)"

datatype Format = Jpeg | Png | Webp

fun mime :: "Format \<Rightarrow> string" where
  "mime Jpeg = ''image/jpeg''"
| "mime Png = ''image/png''"
| "mime Webp = ''image/webp''"

datatype thrown = Error string | NonError

record CompressionOptions =
  maxWidth :: "rat option"
  maxHeight :: "rat option"
  quality :: "rat option"
  format :: "Format option"
  maxSizeKB :: "rat option"

record CompressionResult =
  result_file :: File
  originalSize :: nat
  compressedSize :: nat
  compressionRatio :: "rat option"
  width :: rat
  height :: rat

record browser =
  loadImage :: "File \<Rightarrow> (nat \<times> nat) option"
  toBlob :: "File \<Rightarrow> rat \<Rightarrow> rat \<Rightarrow> Format \<Rightarrow> rat \<Rightarrow> byte list option"

datatype event =
  Start rat rat
| Decode
| Encode rat rat Format rat

text \<open>
  \<open>(1 - blob.size / file.size) * 100\<close>. For an empty original file JavaScript divides by
  zero and the ratio is not a finite number: \<open>None\<close>.
\<close>

definition ratio_percent :: "nat \<Rightarrow> nat \<Rightarrow> rat option" where
  "ratio_percent blobSize fileSize =
     (if fileSize = 0 then None
      else Some ((1 - of_nat blobSize / of_nat fileSize) * 100))"

text \<open>
  Lines 347-359 of \<open>compressImage\<close>: the new dimensions. (For a decoded image of height 0
  and width above the bound JavaScript computes \<open>width / Infinity = 0\<close>; HOL's
  \<open>x / 0 = 0\<close> gives the same height.)
\<close>

definition resize_dimensions :: "rat \<Rightarrow> rat \<Rightarrow> rat \<times> rat \<Rightarrow> rat \<times> rat" where
  "resize_dimensions maxW maxH wh =
     (case wh of (w, h) \<Rightarrow>
        if w > maxW \<or> h > maxH then
          (let aspectRatio = w / h in
           if w > h then (let w' = min maxW w in (w', w' / aspectRatio))
           else (let h' = min maxH h in (h' * aspectRatio, h')))
        else (w, h))"

definition make_result :: "File \<Rightarrow> Format \<Rightarrow> byte list \<Rightarrow> rat \<Rightarrow> rat \<Rightarrow> CompressionResult" where
  "make_result f fmt blob w h =
     \<lparr> result_file = \<lparr> file_name = file_name f, file_type = mime fmt, file_bytes = blob \<rparr>,
       originalSize = file_size f,
       compressedSize = length blob,
       compressionRatio = ratio_percent (length blob) (file_size f),
       width = w,
       height = h \<rparr>"

text \<open>A destructuring default, \<open>const { x = d } = options\<close>: \<open>d\<close> when the field is absent.\<close>

definition or_default :: "'a option \<Rightarrow> 'a \<Rightarrow> 'a" where
  "or_default x d = (case x of None \<Rightarrow> d | Some v \<Rightarrow> v)"

definition compressImage ::
  "browser \<Rightarrow> File \<Rightarrow> CompressionOptions \<Rightarrow> (thrown + CompressionResult) \<times> event list" where
  "compressImage env f options =
     (let maxW = or_default (maxWidth options) 1920;
          maxH = or_default (maxHeight options) 1080;
          q = or_default (quality options) (8 / 10);
          fmt = or_default (format options) Jpeg;
          maxKB = or_default (maxSizeKB options) 500
      in
      case loadImage env f of
        None \<Rightarrow> (Inl (Error ''Failed to load image''), [Start q maxKB, Decode])
      | Some (w0, h0) \<Rightarrow>
          (case resize_dimensions maxW maxH (of_nat w0, of_nat h0) of (w, h) \<Rightarrow>
             (case toBlob env f w h fmt q of
                None \<Rightarrow>
                  (Inl (Error ''Failed to compress image''),
                   [Start q maxKB, Decode, Encode w h fmt q])
              | Some blob \<Rightarrow>
                  (let compressedSizeKB = of_nat (length blob) / 1024 in
                   if compressedSizeKB > maxKB then
                     (let newQuality = max (1 / 10) (q * (maxKB / compressedSizeKB)) in
                      case toBlob env f w h fmt newQuality of
                        None \<Rightarrow>
                          (Inl (Error ''Failed to further compress image''),
                           [Start q maxKB, Decode, Encode w h fmt q, Encode w h fmt newQuality])
                      | Some finalBlobCompressed \<Rightarrow>
                          (Inr (make_result f fmt finalBlobCompressed w h),
                           [Start q maxKB, Decode, Encode w h fmt q, Encode w h fmt newQuality]))
                   else
                     (Inr (make_result f fmt blob w h),
                      [Start q maxKB, Decode, Encode w h fmt q])))))"

definition maxAttempts :: nat where
  "maxAttempts = 5"

text \<open>
  The options \<open>smartCompress\<close> passes inside its loop, and the options of its last call
  after the loop (\<open>{ quality: 0.1 }\<close>, everything else defaulted).
\<close>

definition loop_options :: "rat \<Rightarrow> rat \<Rightarrow> CompressionOptions" where
  "loop_options q targetSizeKB =
     \<lparr> maxWidth = Some 1920, maxHeight = Some 1080, quality = Some q,
       format = Some Jpeg, maxSizeKB = Some targetSizeKB \<rparr>"

definition fallback_options :: CompressionOptions where
  "fallback_options =
     \<lparr> maxWidth = None, maxHeight = None, quality = Some (1 / 10),
       format = None, maxSizeKB = None \<rparr>"

text \<open>
  The \<open>while (attempt < maxAttempts)\<close> loop, started at any values of \<open>quality\<close> and
  \<open>attempt\<close>. \<open>Returned r\<close> is the \<open>return result\<close> inside the loop; \<open>Exhausted q\<close> is
  leaving the loop, with the last value of \<open>quality\<close>.
\<close>

datatype outcome = Returned CompressionResult | Exhausted rat

function smartCompress_loop ::
  "browser \<Rightarrow> File \<Rightarrow> rat \<Rightarrow> rat \<Rightarrow> nat \<Rightarrow> outcome \<times> event list" where
  "smartCompress_loop env f targetSizeKB q attempt =
     (if attempt < maxAttempts then
        (case compressImage env f (loop_options q targetSizeKB) of
           (Inr result, t) \<Rightarrow>
             if of_nat (compressedSize result) / 1024 \<le> targetSizeKB * (11 / 10)
             then (Returned result, t)
             else (case smartCompress_loop env f targetSizeKB
                          (max (1 / 10) (q * (7 / 10))) (attempt + 1) of
                     (r, t') \<Rightarrow> (r, t @ t'))
         | (Inl err, t) \<Rightarrow>
             (case smartCompress_loop env f targetSizeKB
                     (max (1 / 10) (q * (7 / 10))) (attempt + 1) of
                (r, t') \<Rightarrow> (r, t @ t')))
      else (Exhausted q, []))"
  by pat_completeness auto
termination
  by (relation "measure (\<lambda>(env, f, targetSizeKB, q, attempt). maxAttempts - attempt)") auto

declare smartCompress_loop.simps [simp del]

text \<open>The result returned when the last call fails too: the original file.\<close>

definition original_result :: "File \<Rightarrow> CompressionResult" where
  "original_result f =
     \<lparr> result_file = f, originalSize = file_size f, compressedSize = file_size f,
       compressionRatio = Some 0, width = 0, height = 0 \<rparr>"

definition smartCompress ::
  "browser \<Rightarrow> File \<Rightarrow> rat \<Rightarrow> (thrown + CompressionResult) \<times> event list" where
  "smartCompress env f targetSizeKB =
     (case smartCompress_loop env f targetSizeKB (9 / 10) 0 of
        (Returned result, t) \<Rightarrow> (Inr result, t)
      | (Exhausted q, t) \<Rightarrow>
          (case compressImage env f fallback_options of
             (Inr result, t') \<Rightarrow> (Inr result, t @ t')
           | (Inl err, t') \<Rightarrow> (Inr (original_result f), t @ t')))"

text \<open>\<open>targetSizeKB\<close> defaults to 500.\<close>

definition smartCompress_default ::
  "browser \<Rightarrow> File \<Rightarrow> (thrown + CompressionResult) \<times> event list" where
  "smartCompress_default env f = smartCompress env f 500"

subsection \<open>Reading the event list\<close>

fun is_Start :: "event \<Rightarrow> bool" where
  "is_Start (Start q m) = True"
| "is_Start e = False"

fun is_Decode :: "event \<Rightarrow> bool" where
  "is_Decode Decode = True"
| "is_Decode e = False"

fun is_Encode :: "event \<Rightarrow> bool" where
  "is_Encode (Encode w h fmt q) = True"
| "is_Encode e = False"

text \<open>
  The number of calls of \<open>compressImage\<close>, of image decodes and of encodes
  (\<open>canvas.toBlob\<close>) in an event list.
\<close>

definition calls :: "event list \<Rightarrow> nat" where
  "calls t = length (filter is_Start t)"

definition decodes :: "event list \<Rightarrow> nat" where
  "decodes t = length (filter is_Decode t)"

definition encodes :: "event list \<Rightarrow> nat" where
  "encodes t = length (filter is_Encode t)"

text \<open>The qualities \<open>compressImage\<close> was called with, in order.\<close>

fun start_qualities :: "event list \<Rightarrow> rat list" where
  "start_qualities [] = []"
| "start_qualities (Start q m # t) = q # start_qualities t"
| "start_qualities (e # t) = start_qualities t"


definition quality_in_range :: "rat \<Rightarrow> bool" where
  "quality_in_range q \<longleftrightarrow> 1 / 10 \<le> q \<and> q \<le> 9 / 10"

fun event_quality_ok :: "event \<Rightarrow> bool" where
  "event_quality_ok (Start q m) = quality_in_range q"
| "event_quality_ok Decode = True"
| "event_quality_ok (Encode w h fmt q) = quality_in_range q"

text \<open>The reduction step of the quality, as the specification words it.\<close>

definition next_quality :: "rat \<Rightarrow> rat" where
  "next_quality q = max (1 / 10) (7 / 10 * q)"

text \<open>The check \<open>resultSizeKB <= targetSizeKB * 1.1\<close>.\<close>

definition within_tolerance :: "CompressionResult \<Rightarrow> rat \<Rightarrow> bool" where
  "within_tolerance r targetSizeKB \<longleftrightarrow>
     of_nat (compressedSize r) / 1024 \<le> targetSizeKB * (11 / 10)"

section \<open>URL classifiers (cloudinary.ts)\<close>

text \<open>
  \<open>String.prototype.includes\<close>: the search string occurs in the string at some position.
\<close>

fun string_includes :: "string \<Rightarrow> string \<Rightarrow> bool" where
  "string_includes [] s = (s = [])"
| "string_includes (c # cs) s = (prefix s (c # cs) \<or> string_includes cs s)"

definition isCloudinaryUrl :: "string \<Rightarrow> bool" where
  "isCloudinaryUrl url = string_includes url ''cloudinary.com''"

definition isFirebaseStorageUrl :: "string \<Rightarrow> bool" where
  "isFirebaseStorageUrl url =
     (string_includes url ''firebasestorage.googleapis.com'' \<or> string_includes url ''firebase'')"

section \<open>Migration to Cloudinary (migrateToCloudinary.ts)\<close>

text \<open>
  \<^item> A product is the fields of the \<open>Product\<close> interface; \<open>old_firebase_url\<close> is optional.
  \<^item> The services are parameters: \<open>db\<close> says whether the Firestore handle is set,
    \<open>getDocs\<close> is the products of the collection, \<open>uploadFromUrl\<close> and \<open>updateDoc\<close>
    return or throw, \<open>now\<close> is \<open>new Date().toISOString()\<close>.
  \<^item> The events are the \<open>Processing\<close> line logged for each product of the loop, each
    upload, each document update and each two-second delay.
\<close>

record Product =
  product_id :: string
  product_name :: string
  image_url :: string
  old_firebase_url :: "string option"

record UpdateData =
  new_image_url :: string
  migrated_to_cloudinary_at :: string
  updated_at :: string
  new_old_firebase_url :: "string option"

record services =
  db :: bool
  getDocs :: "thrown + Product list"
  uploadFromUrl :: "string \<Rightarrow> string \<Rightarrow> thrown + string"
  updateDoc :: "string \<Rightarrow> UpdateData \<Rightarrow> thrown + unit"
  now :: string

datatype mevent =
  Processing string
| Upload string string
| Update string UpdateData
| Wait

record ErrorEntry =
  product :: string
  error :: string

record MigrationResults =
  total :: nat
  migrated :: nat
  skipped :: nat
  failed :: nat
  errors :: "ErrorEntry list"

text \<open>\<open>x && isFirebaseStorageUrl(x)\<close> for an optional string: absent and empty are falsy.\<close>

definition firebase_field :: "string option \<Rightarrow> bool" where
  "firebase_field x = (case x of None \<Rightarrow> False | Some u \<Rightarrow> u \<noteq> [] \<and> isFirebaseStorageUrl u)"

definition migrateProductToCloudinary ::
  "services \<Rightarrow> Product \<Rightarrow> (thrown + string option) \<times> mevent list" where
  "migrateProductToCloudinary env p =
     (let firebaseUrl =
            (if firebase_field (old_firebase_url p) then old_firebase_url p
             else if firebase_field (Some (image_url p)) then Some (image_url p)
             else None)
      in
      case firebaseUrl of
        None \<Rightarrow> (Inr None, [])
      | Some url \<Rightarrow>
          (case uploadFromUrl env url ''products'' of
             Inl e \<Rightarrow> (Inl e, [Upload url ''products''])
           | Inr cloudinaryUrl \<Rightarrow>
               if db env then
                 (let updateData =
                        \<lparr> new_image_url = cloudinaryUrl,
                          migrated_to_cloudinary_at = now env,
                          updated_at = now env,
                          new_old_firebase_url =
                            (if url = image_url p \<and> Some url \<noteq> old_firebase_url p
                             then Some url else None) \<rparr>
                  in
                  case updateDoc env (product_id p) updateData of
                    Inl e \<Rightarrow>
                      (Inl e, [Upload url ''products'', Update (product_id p) updateData])
                  | Inr u \<Rightarrow>
                      (Inr (Some cloudinaryUrl),
                       [Upload url ''products'', Update (product_id p) updateData]))
               else (Inr (Some cloudinaryUrl), [Upload url ''products''])))"

text \<open>\<open>error instanceof Error ? error.message : 'Unknown error'\<close>\<close>

fun errorMessage :: "thrown \<Rightarrow> string" where
  "errorMessage (Error m) = m"
| "errorMessage NonError = ''Unknown error''"

text \<open>The filter that selects \<open>productsToMigrate\<close>.\<close>

definition needs_migration :: "Product \<Rightarrow> bool" where
  "needs_migration p \<longleftrightarrow>
     (firebase_field (old_firebase_url p) \<or> firebase_field (Some (image_url p)))
     \<and> \<not> string_includes (image_url p) ''cloudinary.com''"

text \<open>
  The \<open>for\<close> loop over \<open>productsToMigrate\<close>, on the products from index \<open>i\<close> on;
  \<open>i < productsToMigrate.length - 1\<close> says that the rest is not empty.
\<close>

fun migrate_loop ::
  "services \<Rightarrow> Product list \<Rightarrow> MigrationResults \<Rightarrow> MigrationResults \<times> mevent list" where
  "migrate_loop env [] results = (results, [])"
| "migrate_loop env (p # rest) results =
     (case migrateProductToCloudinary env p of
        (Inr u, t) \<Rightarrow>
          (case migrate_loop env rest (results\<lparr>migrated := migrated results + 1\<rparr>) of
             (r, t') \<Rightarrow>
               (r, Processing (product_name p) # t @ (if rest \<noteq> [] then [Wait] else []) @ t'))
      | (Inl e, t) \<Rightarrow>
          (case migrate_loop env rest
                  (results\<lparr>failed := failed results + 1,
                     errors := errors results @
                       [\<lparr>product = product_name p, error = errorMessage e\<rparr>]\<rparr>) of
             (r, t') \<Rightarrow> (r, Processing (product_name p) # t @ t')))"

text \<open>The message of the first error omits the sign the source puts before it.\<close>

definition migrateAllToCloudinary ::
  "services \<Rightarrow> (thrown + MigrationResults) \<times> mevent list" where
  "migrateAllToCloudinary env =
     (if \<not> db env then (Inl (Error ''Firebase not initialized''), [])
      else
        case getDocs env of
          Inl e \<Rightarrow> (Inl e, [])
        | Inr products \<Rightarrow>
            (let results = \<lparr> total = length products, migrated = 0, skipped = 0,
                             failed = 0, errors = [] \<rparr>;
                 productsToMigrate = filter needs_migration products
             in
             if length productsToMigrate = 0 then (Inr results, [])
             else
               (case migrate_loop env productsToMigrate results of
                  (r, t) \<Rightarrow>
                    (Inr (r\<lparr>skipped := total r - length productsToMigrate\<rparr>), t))))"

text \<open>The products the loop reached, by the \<open>Processing\<close> lines.\<close>

fun processed :: "mevent list \<Rightarrow> string list" where
  "processed [] = []"
| "processed (Processing n # t) = n # processed t"
| "processed (e # t) = processed t"

text \<open>Whether the migration of one product returns (rather than throws).\<close>

definition migrates :: "services \<Rightarrow> Product \<Rightarrow> bool" where
  "migrates env p = (\<not> isl (fst (migrateProductToCloudinary env p)))"

definition error_entry :: "services \<Rightarrow> Product \<Rightarrow> ErrorEntry" where
  "error_entry env p =
     \<lparr> product = product_name p,
       error = (case fst (migrateProductToCloudinary env p) of
                  Inl e \<Rightarrow> errorMessage e | Inr u \<Rightarrow> []) \<rparr>"

section \<open>Example inputs\<close>

text \<open>A file of \<open>n\<close> zero bytes.\<close>

definition sample_file :: "nat \<Rightarrow> File" where
  "sample_file n =
     \<lparr> file_name = ''photo.jpg'', file_type = ''image/jpeg'', file_bytes = replicate n 0 \<rparr>"

text \<open>A browser that cannot decode the file.\<close>

definition corrupt_browser :: browser where
  "corrupt_browser = \<lparr> loadImage = (\<lambda>f. None), toBlob = (\<lambda>f w h fmt q. None) \<rparr>"

text \<open>A browser that decodes the file to 800 by 600 and whose encoder yields no blob.\<close>

definition null_encoder_browser :: browser where
  "null_encoder_browser =
     \<lparr> loadImage = (\<lambda>f. Some (800, 600)), toBlob = (\<lambda>f w h fmt q. None) \<rparr>"

text \<open>A browser whose encoder yields \<open>n\<close> bytes at every quality.\<close>

definition fixed_size_browser :: "nat \<Rightarrow> nat \<Rightarrow> nat \<Rightarrow> browser" where
  "fixed_size_browser w0 h0 n =
     \<lparr> loadImage = (\<lambda>f. Some (w0, h0)), toBlob = (\<lambda>f w h fmt q. Some (replicate n 0)) \<rparr>"

text \<open>A browser whose encoder yields \<open>big\<close> bytes above the quality \<open>q0\<close> and \<open>small\<close> bytes up to it.\<close>

definition threshold_browser :: "nat \<Rightarrow> nat \<Rightarrow> rat \<Rightarrow> nat \<Rightarrow> nat \<Rightarrow> browser" where
  "threshold_browser w0 h0 q0 big small =
     \<lparr> loadImage = (\<lambda>f. Some (w0, h0)),
       toBlob = (\<lambda>f w h fmt q. Some (replicate (if q0 < q then big else small) 0)) \<rparr>"

text \<open>A product whose image is on Firebase Storage, and one whose image is on Cloudinary.\<close>

definition firebase_product :: "string \<Rightarrow> Product" where
  "firebase_product n =
     \<lparr> product_id = n, product_name = n,
       image_url = ''https://firebasestorage.googleapis.com/'' @ n,
       old_firebase_url = None \<rparr>"

definition cloudinary_product :: "string \<Rightarrow> Product" where
  "cloudinary_product n =
     \<lparr> product_id = n, product_name = n,
       image_url = ''https://res.cloudinary.com/'' @ n,
       old_firebase_url = None \<rparr>"

text \<open>
  Services with the given products, where the upload of the product \<open>bad\<close> throws and
  every other call succeeds.
\<close>

definition shop :: "Product list \<Rightarrow> string \<Rightarrow> services" where
  "shop products bad =
     \<lparr> db = True,
       getDocs = Inr products,
       uploadFromUrl = (\<lambda>url folder.
          if url = ''https://firebasestorage.googleapis.com/'' @ bad
          then Inl (Error ''upload failed'')
          else Inr (''https://res.cloudinary.com/'' @ folder)),
       updateDoc = (\<lambda>i d. Inr ()),
       now = ''2024-01-01T00:00:00.000Z'' \<rparr>"

section \<open>Properties of the compression\<close>

subsection \<open>The branches of \<open>compressImage\<close>\<close>

lemma compressImage_load_error:
  assumes "loadImage env f = None"
  shows "compressImage env f opts =
    (Inl (Error ''Failed to load image''),
     [Start (or_default (quality opts) (8 / 10)) (or_default (maxSizeKB opts) 500), Decode])"
  using assms by (simp add: compressImage_def Let_def)

lemma compressImage_encode_null:
  assumes "loadImage env f = Some (w0, h0)"
    and "resize_dimensions (or_default (maxWidth opts) 1920) (or_default (maxHeight opts) 1080)
           (of_nat w0, of_nat h0) = (w, h)"
    and "toBlob env f w h (or_default (format opts) Jpeg) (or_default (quality opts) (8 / 10)) = None"
  shows "compressImage env f opts =
    (Inl (Error ''Failed to compress image''),
     [Start (or_default (quality opts) (8 / 10)) (or_default (maxSizeKB opts) 500), Decode,
      Encode w h (or_default (format opts) Jpeg) (or_default (quality opts) (8 / 10))])"
  using assms by (simp add: compressImage_def Let_def)

lemma compressImage_first_fits:
  assumes "loadImage env f = Some (w0, h0)"
    and "resize_dimensions (or_default (maxWidth opts) 1920) (or_default (maxHeight opts) 1080)
           (of_nat w0, of_nat h0) = (w, h)"
    and "toBlob env f w h (or_default (format opts) Jpeg) (or_default (quality opts) (8 / 10)) = Some blob"
    and "\<not> of_nat (length blob) / 1024 > or_default (maxSizeKB opts) 500"
  shows "compressImage env f opts =
    (Inr (make_result f (or_default (format opts) Jpeg) blob w h),
     [Start (or_default (quality opts) (8 / 10)) (or_default (maxSizeKB opts) 500), Decode,
      Encode w h (or_default (format opts) Jpeg) (or_default (quality opts) (8 / 10))])"
  using assms by (simp add: compressImage_def Let_def)

lemma compressImage_second_null:
  assumes "loadImage env f = Some (w0, h0)"
    and "resize_dimensions (or_default (maxWidth opts) 1920) (or_default (maxHeight opts) 1080)
           (of_nat w0, of_nat h0) = (w, h)"
    and "toBlob env f w h (or_default (format opts) Jpeg) (or_default (quality opts) (8 / 10)) = Some blob"
    and "of_nat (length blob) / 1024 > or_default (maxSizeKB opts) 500"
    and "toBlob env f w h (or_default (format opts) Jpeg)
           (max (1 / 10) (or_default (quality opts) (8 / 10) *
              (or_default (maxSizeKB opts) 500 / (of_nat (length blob) / 1024)))) = None"
  shows "compressImage env f opts =
    (Inl (Error ''Failed to further compress image''),
     [Start (or_default (quality opts) (8 / 10)) (or_default (maxSizeKB opts) 500), Decode,
      Encode w h (or_default (format opts) Jpeg) (or_default (quality opts) (8 / 10)),
      Encode w h (or_default (format opts) Jpeg)
        (max (1 / 10) (or_default (quality opts) (8 / 10) *
              (or_default (maxSizeKB opts) 500 / (of_nat (length blob) / 1024))))])"
  using assms by (simp add: compressImage_def Let_def)

lemma compressImage_second:
  assumes "loadImage env f = Some (w0, h0)"
    and "resize_dimensions (or_default (maxWidth opts) 1920) (or_default (maxHeight opts) 1080)
           (of_nat w0, of_nat h0) = (w, h)"
    and "toBlob env f w h (or_default (format opts) Jpeg) (or_default (quality opts) (8 / 10)) = Some blob"
    and "of_nat (length blob) / 1024 > or_default (maxSizeKB opts) 500"
    and "toBlob env f w h (or_default (format opts) Jpeg)
           (max (1 / 10) (or_default (quality opts) (8 / 10) *
              (or_default (maxSizeKB opts) 500 / (of_nat (length blob) / 1024)))) = Some blob2"
  shows "compressImage env f opts =
    (Inr (make_result f (or_default (format opts) Jpeg) blob2 w h),
     [Start (or_default (quality opts) (8 / 10)) (or_default (maxSizeKB opts) 500), Decode,
      Encode w h (or_default (format opts) Jpeg) (or_default (quality opts) (8 / 10)),
      Encode w h (or_default (format opts) Jpeg)
        (max (1 / 10) (or_default (quality opts) (8 / 10) *
              (or_default (maxSizeKB opts) 500 / (of_nat (length blob) / 1024))))])"
  using assms by (simp add: compressImage_def Let_def)


lemma compressImage_cases [case_names load_error encode_null first_fits second_null second]:
  fixes env f opts
  defines "q \<equiv> or_default (quality opts) (8 / 10)"
    and "m \<equiv> or_default (maxSizeKB opts) 500"
    and "fmt \<equiv> or_default (format opts) Jpeg"
    and "maxW \<equiv> or_default (maxWidth opts) 1920"
    and "maxH \<equiv> or_default (maxHeight opts) 1080"
  obtains
    "loadImage env f = None"
    "compressImage env f opts = (Inl (Error ''Failed to load image''), [Start q m, Decode])"
  | w0 h0 w h where
    "loadImage env f = Some (w0, h0)"
    "resize_dimensions maxW maxH (of_nat w0, of_nat h0) = (w, h)"
    "toBlob env f w h fmt q = None"
    "compressImage env f opts =
       (Inl (Error ''Failed to compress image''), [Start q m, Decode, Encode w h fmt q])"
  | w0 h0 w h blob where
    "loadImage env f = Some (w0, h0)"
    "resize_dimensions maxW maxH (of_nat w0, of_nat h0) = (w, h)"
    "toBlob env f w h fmt q = Some blob"
    "\<not> of_nat (length blob) / 1024 > m"
    "compressImage env f opts =
       (Inr (make_result f fmt blob w h), [Start q m, Decode, Encode w h fmt q])"
  | w0 h0 w h blob where
    "loadImage env f = Some (w0, h0)"
    "resize_dimensions maxW maxH (of_nat w0, of_nat h0) = (w, h)"
    "toBlob env f w h fmt q = Some blob"
    "of_nat (length blob) / 1024 > m"
    "toBlob env f w h fmt (max (1 / 10) (q * (m / (of_nat (length blob) / 1024)))) = None"
    "compressImage env f opts =
       (Inl (Error ''Failed to further compress image''),
        [Start q m, Decode, Encode w h fmt q,
         Encode w h fmt (max (1 / 10) (q * (m / (of_nat (length blob) / 1024))))])"
  | w0 h0 w h blob blob2 where
    "loadImage env f = Some (w0, h0)"
    "resize_dimensions maxW maxH (of_nat w0, of_nat h0) = (w, h)"
    "toBlob env f w h fmt q = Some blob"
    "of_nat (length blob) / 1024 > m"
    "toBlob env f w h fmt (max (1 / 10) (q * (m / (of_nat (length blob) / 1024)))) = Some blob2"
    "compressImage env f opts =
       (Inr (make_result f fmt blob2 w h),
        [Start q m, Decode, Encode w h fmt q,
         Encode w h fmt (max (1 / 10) (q * (m / (of_nat (length blob) / 1024))))])"
proof (cases "loadImage env f")
  case None
  show ?thesis
    by (rule that(1) [OF None]) (simp add: compressImage_load_error [OF None] q_def m_def)
next
  case (Some wh)
  obtain w0 h0 where wh: "wh = (w0, h0)" by (cases wh)
  have ld: "loadImage env f = Some (w0, h0)" using Some wh by simp
  obtain w h where rs: "resize_dimensions maxW maxH (of_nat w0, of_nat h0) = (w, h)"
    by (cases "resize_dimensions maxW maxH (of_nat w0, of_nat h0)")
  note rs' = rs [unfolded maxW_def maxH_def]
  show ?thesis
  proof (cases "toBlob env f w h fmt q")
    case None
    note tb = None [unfolded fmt_def q_def]
    show ?thesis
      by (rule that(2) [OF ld rs None])
        (simp add: compressImage_encode_null [OF ld rs' tb] q_def m_def fmt_def)
  next
    case (Some blob)
    note tb = Some [unfolded fmt_def q_def]
    show ?thesis
    proof (cases "of_nat (length blob) / 1024 > m")
      case False
      note sm = False [unfolded m_def]
      show ?thesis
        by (rule that(3) [OF ld rs Some False])
          (simp add: compressImage_first_fits [OF ld rs' tb sm] q_def m_def fmt_def)
    next
      case True
      note bg = True [unfolded m_def]
      show ?thesis
      proof (cases "toBlob env f w h fmt (max (1 / 10) (q * (m / (of_nat (length blob) / 1024))))")
        case None
        note tb2 = None [unfolded fmt_def q_def m_def]
        show ?thesis
          by (rule that(4) [OF ld rs Some True None])
            (simp add: compressImage_second_null [OF ld rs' tb bg tb2] q_def m_def fmt_def)
      next
        case (Some blob2)
        note tb2 = Some [unfolded fmt_def q_def m_def]
        show ?thesis
          by (rule that(5) [OF ld rs \<open>toBlob env f w h fmt q = Some blob\<close> True Some])
            (simp add: compressImage_second [OF ld rs' tb bg tb2] q_def m_def fmt_def)
      qed
    qed
  qed
qed


subsection \<open>The loop of \<open>smartCompress\<close>\<close>

lemma counts_append:
  "calls (s @ t) = calls s + calls t"
  "decodes (s @ t) = decodes s + decodes t"
  "encodes (s @ t) = encodes s + encodes t"
  by (simp_all add: calls_def decodes_def encodes_def)

lemma counts_Nil: "calls [] = 0" "decodes [] = 0" "encodes [] = 0"
  by (simp_all add: calls_def decodes_def encodes_def)

lemma compressImage_calls: "calls (snd (compressImage env f opts)) = 1"
  by (cases rule: compressImage_cases [of env f opts]) (simp_all add: calls_def)

lemma compressImage_decodes: "decodes (snd (compressImage env f opts)) = 1"
  by (cases rule: compressImage_cases [of env f opts]) (simp_all add: decodes_def)

lemma compressImage_encodes: "encodes (snd (compressImage env f opts)) \<le> 2"
  by (cases rule: compressImage_cases [of env f opts]) (simp_all add: encodes_def)

lemma loop_exit:
  "\<not> a < maxAttempts \<Longrightarrow> smartCompress_loop env f t q a = (Exhausted q, [])"
  by (simp add: smartCompress_loop.simps [of env f t q a])

lemma loop_return:
  "a < maxAttempts \<Longrightarrow> compressImage env f (loop_options q t) = (Inr r, tr) \<Longrightarrow>
   within_tolerance r t \<Longrightarrow>
   smartCompress_loop env f t q a = (Returned r, tr)"
  by (simp add: smartCompress_loop.simps [of env f t q a] within_tolerance_def)

lemma loop_retry:
  "a < maxAttempts \<Longrightarrow> compressImage env f (loop_options q t) = (Inr r, tr) \<Longrightarrow>
   \<not> within_tolerance r t \<Longrightarrow>
   smartCompress_loop env f t (max (1 / 10) (q * (7 / 10))) (a + 1) = (out, tr') \<Longrightarrow>
   smartCompress_loop env f t q a = (out, tr @ tr')"
  by (simp add: smartCompress_loop.simps [of env f t q a] within_tolerance_def)

lemma loop_catch:
  "a < maxAttempts \<Longrightarrow> compressImage env f (loop_options q t) = (Inl e, tr) \<Longrightarrow>
   smartCompress_loop env f t (max (1 / 10) (q * (7 / 10))) (a + 1) = (out, tr') \<Longrightarrow>
   smartCompress_loop env f t q a = (out, tr @ tr')"
  by (simp add: smartCompress_loop.simps [of env f t q a])

lemma loop_induct [case_names exit return again]:
  assumes ex: "\<And>q a. \<not> a < maxAttempts \<Longrightarrow> P q a (Exhausted q, [])"
    and ret: "\<And>q a r tr. a < maxAttempts \<Longrightarrow>
           compressImage env f (loop_options q t) = (Inr r, tr) \<Longrightarrow>
           within_tolerance r t \<Longrightarrow> P q a (Returned r, tr)"
    and ag: "\<And>q a res tr out tr'. a < maxAttempts \<Longrightarrow>
           compressImage env f (loop_options q t) = (res, tr) \<Longrightarrow>
           (\<And>r. res = Inr r \<Longrightarrow> \<not> within_tolerance r t) \<Longrightarrow>
           smartCompress_loop env f t (max (1 / 10) (q * (7 / 10))) (a + 1) = (out, tr') \<Longrightarrow>
           P (max (1 / 10) (q * (7 / 10))) (a + 1) (out, tr') \<Longrightarrow> P q a (out, tr @ tr')"
  shows "P q a (smartCompress_loop env f t q a)"
proof (induction n \<equiv> "maxAttempts - a" arbitrary: a q)
  case 0
  then have na: "\<not> a < maxAttempts" by linarith
  show ?case unfolding loop_exit [OF na] by (rule ex [OF na])
next
  case (Suc n)
  have lt: "a < maxAttempts" using Suc.hyps(2) by linarith
  have "n = maxAttempts - (a + 1)" using Suc.hyps(2) by linarith
  then have IH: "P q' (a + 1) (smartCompress_loop env f t q' (a + 1))" for q'
    by (rule Suc.hyps(1))
  let ?q = "max (1 / 10) (q * (7 / 10))"
  obtain out tr' where o: "smartCompress_loop env f t ?q (a + 1) = (out, tr')"
    by (cases "smartCompress_loop env f t ?q (a + 1)")
  have P': "P ?q (a + 1) (out, tr')" using IH [of ?q] unfolding o .
  obtain res tr where c: "compressImage env f (loop_options q t) = (res, tr)"
    by (cases "compressImage env f (loop_options q t)")
  show ?case
  proof (cases res)
    case (Inl e)
    have c': "compressImage env f (loop_options q t) = (Inl e, tr)" using c Inl by simp
    have "P q a (out, tr @ tr')"
    proof (rule ag [OF lt c _ o P'])
      fix r assume "res = Inr r" then show "\<not> within_tolerance r t" using Inl by simp
    qed
    then show ?thesis unfolding loop_catch [OF lt c' o] .
  next
    case (Inr r)
    have c': "compressImage env f (loop_options q t) = (Inr r, tr)" using c Inr by simp
    show ?thesis
    proof (cases "within_tolerance r t")
      case True
      show ?thesis unfolding loop_return [OF lt c' True] by (rule ret [OF lt c' True])
    next
      case False
      have "P q a (out, tr @ tr')"
      proof (rule ag [OF lt c _ o P'])
        fix r' assume "res = Inr r'" then show "\<not> within_tolerance r' t" using Inr False by simp
      qed
      then show ?thesis unfolding loop_retry [OF lt c' False o] .
    qed
  qed
qed

lemma loop_calls_le:
  "calls (snd (smartCompress_loop env f t q a)) \<le> maxAttempts - a"
proof (rule loop_induct [where P = "\<lambda>q a x. calls (snd x) \<le> maxAttempts - a"], goal_cases)
  case (1 q a)
  then show ?case by (simp add: counts_Nil)
next
  case (2 q a r tr)
  have "calls tr = 1" using compressImage_calls [of env f "loop_options q t"] 2(2) by simp
  then show ?case using 2(1) by simp
next
  case (3 q a res tr out tr')
  have "calls tr = 1" using compressImage_calls [of env f "loop_options q t"] 3(2) by simp
  then show ?case using 3(1) 3(5) by (simp add: counts_append)
qed

lemma loop_encodes_le:
  "encodes (snd (smartCompress_loop env f t q a)) \<le> 2 * (maxAttempts - a)"
proof (rule loop_induct [where P = "\<lambda>q a x. encodes (snd x) \<le> 2 * (maxAttempts - a)"], goal_cases)
  case (1 q a)
  then show ?case by (simp add: counts_Nil)
next
  case (2 q a r tr)
  have "encodes tr \<le> 2" using compressImage_encodes [of env f "loop_options q t"] 2(2) by simp
  then show ?case using 2(1) by simp
next
  case (3 q a res tr out tr')
  have "encodes tr \<le> 2" using compressImage_encodes [of env f "loop_options q t"] 3(2) by simp
  then show ?case using 3(1) 3(5) by (simp add: counts_append)
qed

lemma loop_exhausted_calls:
  "fst (smartCompress_loop env f t q a) = Exhausted q' \<longrightarrow>
   calls (snd (smartCompress_loop env f t q a)) = maxAttempts - a"
proof (rule loop_induct [where P = "\<lambda>q a x. fst x = Exhausted q' \<longrightarrow> calls (snd x) = maxAttempts - a"], goal_cases)
  case (1 q a)
  then show ?case by (simp add: counts_Nil)
next
  case (2 q a r tr)
  then show ?case by simp
next
  case (3 q a res tr out tr')
  have "calls tr = 1" using compressImage_calls [of env f "loop_options q t"] 3(2) by simp
  then show ?case using 3(1) 3(5) by (auto simp add: counts_append)
qed

lemma loop_returned_within:
  "fst (smartCompress_loop env f t q a) = Returned r \<longrightarrow> within_tolerance r t"
proof (rule loop_induct [where P = "\<lambda>q a x. fst x = Returned r \<longrightarrow> within_tolerance r t"], goal_cases)
  case (1 q a)
  then show ?case by simp
next
  case (2 q a r0 tr)
  then show ?case by auto
next
  case (3 q a res tr out tr')
  then show ?case by simp
qed

lemma loop_all_fail:
  assumes "\<And>q. isl (fst (compressImage env f (loop_options q t)))"
  shows "\<exists>q'. fst (smartCompress_loop env f t q a) = Exhausted q'"
proof (rule loop_induct [where P = "\<lambda>q a x. \<exists>q'. fst x = Exhausted q'"], goal_cases)
  case (1 q a)
  then show ?case by simp
next
  case (2 q a r tr)
  then show ?case using assms [of q] by simp
next
  case (3 q a res tr out tr')
  then show ?case by simp
qed

subsection \<open>Failure handling of \<open>smartCompress\<close>\<close>

text \<open>
  C8. \<open>smartCompress\<close> always resolves with a \<open>CompressionResult\<close> and never rejects.
  When every call of \<open>compressImage\<close> fails, the calls of the loop and the last call at
  quality 0.1, it returns the original file with \<open>compressedSize\<close> equal to
  \<open>originalSize\<close>, \<open>compressionRatio\<close> 0 and width and height 0.
\<close>


theorem smartCompress_never_rejects:
  "(\<exists>r. fst (smartCompress env f t) = Inr r) \<and>
   ((\<forall>q. isl (fst (compressImage env f (loop_options q t)))) \<and>
    isl (fst (compressImage env f fallback_options)) \<longrightarrow>
    (\<exists>r. fst (smartCompress env f t) = Inr r \<and> result_file r = f \<and>
         originalSize r = file_size f \<and> compressedSize r = originalSize r \<and>
         compressionRatio r = Some 0 \<and> width r = 0 \<and> height r = 0))"
proof (intro conjI impI)
  show "\<exists>r. fst (smartCompress env f t) = Inr r"
    by (simp add: smartCompress_def split: prod.split outcome.split sum.split)
next
  assume a: "(\<forall>q. isl (fst (compressImage env f (loop_options q t)))) \<and>
    isl (fst (compressImage env f fallback_options))"
  then obtain q' tl where "smartCompress_loop env f t (9 / 10) 0 = (Exhausted q', tl)"
    using loop_all_fail [of env f t "9 / 10" 0]
    by (cases "smartCompress_loop env f t (9 / 10) 0") auto
  moreover obtain e tr where "compressImage env f fallback_options = (Inl e, tr)"
    using a by (cases "compressImage env f fallback_options") (auto simp: isl_def)
  ultimately have "fst (smartCompress env f t) = Inr (original_result f)"
    by (simp add: smartCompress_def)
  then show "\<exists>r. fst (smartCompress env f t) = Inr r \<and> result_file r = f \<and>
         originalSize r = file_size f \<and> compressedSize r = originalSize r \<and>
         compressionRatio r = Some 0 \<and> width r = 0 \<and> height r = 0"
    by (simp add: original_result_def)
qed

theorem smartCompress_never_rejects_witness:
  "(\<forall>q. isl (fst (compressImage corrupt_browser (sample_file 3) (loop_options q 500)))) \<and>
   isl (fst (compressImage corrupt_browser (sample_file 3) fallback_options)) \<and>
   (\<exists>r. fst (smartCompress corrupt_browser (sample_file 3) 500) = Inr r \<and>
        result_file r = sample_file 3 \<and> originalSize r = 3 \<and> compressedSize r = 3 \<and>
        compressionRatio r = Some 0 \<and> width r = 0 \<and> height r = 0)"
proof -
  have l: "loadImage corrupt_browser (sample_file 3) = None"
    by (simp add: corrupt_browser_def)
  have h: "(\<forall>q. isl (fst (compressImage corrupt_browser (sample_file 3) (loop_options q 500)))) \<and>
    isl (fst (compressImage corrupt_browser (sample_file 3) fallback_options))"
    by (simp add: compressImage_load_error [OF l])
  have s: "file_size (sample_file 3) = 3" by (simp add: file_size_def sample_file_def)
  show ?thesis
    using smartCompress_never_rejects [of corrupt_browser "sample_file 3" 500] h s by auto
qed

lemmas eval_defs =
  smartCompress_def smartCompress_loop.simps maxAttempts_def loop_options_def
  fallback_options_def or_default_def original_result_def





lemma compressImage_no_encoder:
  assumes "loadImage env f = Some (w0, h0)"
    and "\<And>w h fmt q. toBlob env f w h fmt q = None"
  shows "compressImage env f opts =
    (Inl (Error ''Failed to compress image''),
     [Start (or_default (quality opts) (8 / 10)) (or_default (maxSizeKB opts) 500), Decode,
      Encode (fst (resize_dimensions (or_default (maxWidth opts) 1920)
                     (or_default (maxHeight opts) 1080) (of_nat w0, of_nat h0)))
             (snd (resize_dimensions (or_default (maxWidth opts) 1920)
                     (or_default (maxHeight opts) 1080) (of_nat w0, of_nat h0)))
             (or_default (format opts) Jpeg) (or_default (quality opts) (8 / 10))])"
  by (rule compressImage_encode_null [OF assms(1) _ assms(2)]) simp

text \<open>
  C1 (as amended). When the image decodes and no encode produces a blob, every call of
  \<open>compressImage\<close> rejects with the error \<open>Failed to compress image\<close>, and \<open>smartCompress\<close>
  catches each of them: after its five attempts and its last call at quality 0.1 (six
  calls, six encodes) it resolves with the original file, \<open>compressedSize\<close> equal to
  \<open>originalSize\<close>, \<open>compressionRatio\<close> 0, width and height 0, and reports no failure.
\<close>

theorem encode_failure_returns_original:
  assumes "loadImage env f = Some (w0, h0)"
    and "\<And>w h fmt q. toBlob env f w h fmt q = None"
  shows "(\<forall>opts. fst (compressImage env f opts) = Inl (Error ''Failed to compress image'')) \<and>
         fst (smartCompress env f t) = Inr (original_result f) \<and>
         calls (snd (smartCompress env f t)) = 6 \<and>
         encodes (snd (smartCompress env f t)) = 6"
proof (intro conjI allI)
  fix opts
  show "fst (compressImage env f opts) = Inl (Error ''Failed to compress image'')"
    by (simp add: compressImage_no_encoder [OF assms])
next
  show "fst (smartCompress env f t) = Inr (original_result f)"
    by (simp add: eval_defs compressImage_no_encoder [OF assms])
next
  show "calls (snd (smartCompress env f t)) = 6"
    by (simp add: eval_defs compressImage_no_encoder [OF assms] calls_def)
next
  show "encodes (snd (smartCompress env f t)) = 6"
    by (simp add: eval_defs compressImage_no_encoder [OF assms] encodes_def)
qed

theorem encode_failure_returns_original_witness:
  "loadImage null_encoder_browser (sample_file 3) = Some (800, 600) \<and>
   (\<forall>w h fmt q. toBlob null_encoder_browser (sample_file 3) w h fmt q = None) \<and>
   fst (compressImage null_encoder_browser (sample_file 3) (loop_options (9 / 10) 500)) =
     Inl (Error ''Failed to compress image'') \<and>
   fst (smartCompress null_encoder_browser (sample_file 3) 500) =
     Inr (original_result (sample_file 3))"
proof -
  have l: "loadImage null_encoder_browser (sample_file 3) = Some (800, 600)"
    by (simp add: null_encoder_browser_def)
  have n: "toBlob null_encoder_browser (sample_file 3) w h fmt q = None" for w h fmt q
    by (simp add: null_encoder_browser_def)
  show ?thesis
    using encode_failure_returns_original [OF l n, of 500] l n by simp
qed

text \<open>
  The claim as stated, that exhausting the attempts without an encoded output is reported
  as a failure, fails: the result is the resolved original file.
\<close>

theorem encode_failure_counterexample:
  "fst (smartCompress null_encoder_browser (sample_file 3) 500) =
     Inr (original_result (sample_file 3)) \<and>
   encodes (snd (smartCompress null_encoder_browser (sample_file 3) 500)) = 6"
  by (simp add: eval_defs compressImage_def resize_dimensions_def null_encoder_browser_def
      encodes_def Let_def)


subsection \<open>The number of attempts\<close>

text \<open>
  C3 (as amended). The loop of \<open>smartCompress\<close> calls \<open>compressImage\<close> at most
  \<open>maxAttempts\<close> times; it returns at the first call whose result is within the ceiling
  times 1.1, and a result it returns is within that bound; when no call is, it makes
  exactly \<open>maxAttempts\<close> calls and \<open>smartCompress\<close> makes one more call, at quality 0.1,
  before it returns. Each call encodes at most twice, so \<open>smartCompress\<close> makes at most
  \<open>maxAttempts + 1\<close> calls and \<open>2 * (maxAttempts + 1)\<close> encodes.
\<close>


theorem loop_attempts_bounded:
  "calls (snd (smartCompress_loop env f t (9 / 10) 0)) \<le> maxAttempts \<and>
   (a < maxAttempts \<and> compressImage env f (loop_options q t) = (Inr r, tr) \<and>
      within_tolerance r t \<longrightarrow> smartCompress_loop env f t q a = (Returned r, tr)) \<and>
   (fst (smartCompress_loop env f t (9 / 10) 0) = Returned r' \<longrightarrow> within_tolerance r' t) \<and>
   (fst (smartCompress_loop env f t (9 / 10) 0) = Exhausted q' \<longrightarrow>
      calls (snd (smartCompress_loop env f t (9 / 10) 0)) = maxAttempts \<and>
      calls (snd (smartCompress env f t)) = maxAttempts + 1) \<and>
   calls (snd (smartCompress env f t)) \<le> maxAttempts + 1 \<and>
   encodes (snd (smartCompress env f t)) \<le> 2 * (maxAttempts + 1)"
proof -
  let ?loop = "smartCompress_loop env f t (9 / 10) 0"
  obtain out tl where o: "?loop = (out, tl)" by (cases ?loop)
  obtain res tf where c: "compressImage env f fallback_options = (res, tf)"
    by (cases "compressImage env f fallback_options")
  have tf1: "calls tf = 1" using compressImage_calls [of env f fallback_options] c by simp
  have tf2: "encodes tf \<le> 2" using compressImage_encodes [of env f fallback_options] c by simp
  have l1: "calls tl \<le> maxAttempts" using loop_calls_le [of env f t "9 / 10" 0] o by simp
  have l2: "encodes tl \<le> 2 * maxAttempts" using loop_encodes_le [of env f t "9 / 10" 0] o by simp
  have tr: "snd (smartCompress env f t) = (case out of Returned x \<Rightarrow> tl | Exhausted x \<Rightarrow> tl @ tf)"
    by (simp add: smartCompress_def o c split: outcome.split sum.split)
  have 1: "calls (snd ?loop) \<le> maxAttempts" using l1 o by simp
  have 2: "a < maxAttempts \<and> compressImage env f (loop_options q t) = (Inr r, tr) \<and>
      within_tolerance r t \<longrightarrow> smartCompress_loop env f t q a = (Returned r, tr)"
    using loop_return by blast
  have 3: "fst ?loop = Returned r' \<longrightarrow> within_tolerance r' t"
    by (rule loop_returned_within)
  have 4: "fst ?loop = Exhausted q' \<longrightarrow>
      calls (snd ?loop) = maxAttempts \<and> calls (snd (smartCompress env f t)) = maxAttempts + 1"
    using loop_exhausted_calls [of env f t "9 / 10" 0 q'] o tf1
    by (auto simp add: tr counts_append)
  have 5: "calls (snd (smartCompress env f t)) \<le> maxAttempts + 1"
    using l1 tf1 by (cases out) (simp_all add: tr counts_append)
  have 6: "encodes (snd (smartCompress env f t)) \<le> 2 * (maxAttempts + 1)"
    using l2 tf2 by (cases out) (simp_all add: tr counts_append)
  from 1 2 3 4 5 6 show ?thesis by blast
qed

text \<open>
  The claim as stated, at most \<open>maxAttempts\<close> encode attempts before returning, fails: with
  an encoder that yields 600000 bytes at every quality and a ceiling of 300 KB,
  \<open>smartCompress\<close> calls \<open>compressImage\<close> six times and encodes twelve times, ten of them
  inside the loop.
\<close>

theorem loop_attempts_counterexample:
  "calls (snd (smartCompress (fixed_size_browser 800 600 600000) (sample_file 700000) 300)) = 6 \<and>
   encodes (snd (smartCompress (fixed_size_browser 800 600 600000) (sample_file 700000) 300)) = 12 \<and>
   encodes (snd (smartCompress_loop (fixed_size_browser 800 600 600000) (sample_file 700000) 300
      (9 / 10) 0)) = 10 \<and>
   maxAttempts = 5"
  by (simp add: eval_defs compressImage_def resize_dimensions_def fixed_size_browser_def
      calls_def encodes_def Let_def make_result_def)

theorem loop_attempts_bounded_witness:
  "smartCompress_loop (threshold_browser 800 600 (1 / 2) 400000 100000) (sample_file 700000) 300
      (9 / 10) 0 =
     (Returned (make_result (sample_file 700000) Jpeg (replicate 100000 0) 800 600),
      [Start (9 / 10) 300, Decode, Encode 800 600 Jpeg (9 / 10), Encode 800 600 Jpeg (864 / 1250),
       Start (63 / 100) 300, Decode, Encode 800 600 Jpeg (63 / 100),
       Encode 800 600 Jpeg (3024 / 6250)]) \<and>
   within_tolerance (make_result (sample_file 700000) Jpeg (replicate 100000 0) 800 600) 300 \<and>
   fst (smartCompress_loop (fixed_size_browser 800 600 600000) (sample_file 700000) 300
      (9 / 10) 0) = Exhausted (151263 / 1000000) \<and>
   calls (snd (smartCompress_loop (fixed_size_browser 800 600 600000) (sample_file 700000) 300
      (9 / 10) 0)) = 5 \<and>
   calls (snd (smartCompress (fixed_size_browser 800 600 600000) (sample_file 700000) 300)) = 6"
proof -
  let ?B = "threshold_browser 800 600 (1 / 2) 400000 100000"
  let ?C = "fixed_size_browser 800 600 600000"
  let ?F = "sample_file 700000"
  let ?R = "make_result ?F Jpeg (replicate 100000 0) 800 600"
  let ?tr = "[Start (63 / 100) 300, Decode, Encode 800 600 Jpeg (63 / 100),
       Encode 800 600 Jpeg (3024 / 6250)]"
  have c: "compressImage ?B ?F (loop_options (63 / 100) 300) = (Inr ?R, ?tr)"
    by (simp add: compressImage_def resize_dimensions_def threshold_browser_def
        loop_options_def or_default_def Let_def)
  have w: "within_tolerance ?R 300"
    by (simp add: within_tolerance_def make_result_def)
  have e1: "smartCompress_loop ?B ?F 300 (9 / 10) 0 =
     (Returned ?R,
      [Start (9 / 10) 300, Decode, Encode 800 600 Jpeg (9 / 10), Encode 800 600 Jpeg (864 / 1250),
       Start (63 / 100) 300, Decode, Encode 800 600 Jpeg (63 / 100),
       Encode 800 600 Jpeg (3024 / 6250)])"
    by (simp add: eval_defs compressImage_def resize_dimensions_def threshold_browser_def
        Let_def make_result_def)
  have e2: "fst (smartCompress_loop ?C ?F 300 (9 / 10) 0) = Exhausted (151263 / 1000000)"
    by (simp add: eval_defs compressImage_def resize_dimensions_def fixed_size_browser_def
        Let_def make_result_def)
  have m: "maxAttempts = 5" by (simp add: maxAttempts_def)
  show ?thesis
    using loop_attempts_bounded [of ?B ?F 300 1 "63 / 100" ?R ?tr ?R "151263 / 1000000"]
      loop_attempts_bounded [of ?C ?F 300 1 "63 / 100" ?R ?tr ?R "151263 / 1000000"]
      c w e1 e2 m
    by simp
qed


subsection \<open>The quality factor\<close>

lemma second_quality_le:
  fixes q m c :: rat
  assumes "0 \<le> q" "0 \<le> c" "m < c"
  shows "q * (m / c) \<le> q"
proof (cases "c = 0")
  case True
  then show ?thesis using assms(1) by simp
next
  case False
  then have "0 < c" using assms(2) by simp
  then have "m / c \<le> 1" using assms(3) by (simp add: divide_le_eq)
  then have "q * (m / c) \<le> q * 1" using assms(1) by (rule mult_left_mono)
  then show ?thesis by simp
qed

lemma second_quality_in_range:
  assumes "quality_in_range q" "m < of_nat n / 1024"
  shows "quality_in_range (max (1 / 10) (q * (m / (of_nat n / 1024))))"
proof -
  have "q * (m / (of_nat n / 1024)) \<le> q"
    using assms by (intro second_quality_le) (simp_all add: quality_in_range_def)
  then show ?thesis using assms(1) by (simp add: quality_in_range_def max_def)
qed

lemma compressImage_quality:
  assumes "quality opts = Some q" "quality_in_range q"
  shows "list_all event_quality_ok (snd (compressImage env f opts))"
proof -
  have q: "or_default (quality opts) d = q" for d using assms(1) by (simp add: or_default_def)
  show ?thesis
  proof (cases rule: compressImage_cases [of env f opts])
    case load_error
    then show ?thesis using assms(2) by (simp add: q)
  next
    case (encode_null w0 h0 w h)
    then show ?thesis using assms(2) by (simp add: q)
  next
    case (first_fits w0 h0 w h blob)
    then show ?thesis using assms(2) by (simp add: q)
  next
    case (second_null w0 h0 w h blob)
    then show ?thesis
      using assms(2) second_quality_in_range [OF assms(2), of "or_default (maxSizeKB opts) 500" "length blob"]
      by (simp add: q)
  next
    case (second w0 h0 w h blob blob2)
    then show ?thesis
      using assms(2) second_quality_in_range [OF assms(2), of "or_default (maxSizeKB opts) 500" "length blob"]
      by (simp add: q)
  qed
qed

lemma compressImage_start_qualities:
  "start_qualities (snd (compressImage env f opts)) = [or_default (quality opts) (8 / 10)]"
  by (cases rule: compressImage_cases [of env f opts]) simp_all

lemma start_qualities_append:
  "start_qualities (s @ t) = start_qualities s @ start_qualities t"
  by (induction s rule: start_qualities.induct) simp_all

lemma next_quality_in_range:
  "quality_in_range q \<Longrightarrow> quality_in_range (max (1 / 10) (q * (7 / 10)))"
  by (simp add: quality_in_range_def max_def)

lemma loop_quality:
  "quality_in_range q \<longrightarrow>
     list_all event_quality_ok (snd (smartCompress_loop env f t q a)) \<and>
     (\<forall>q'. fst (smartCompress_loop env f t q a) = Exhausted q' \<longrightarrow> quality_in_range q')"
proof (rule loop_induct [where P = "\<lambda>q a x. quality_in_range q \<longrightarrow>
     list_all event_quality_ok (snd x) \<and> (\<forall>q'. fst x = Exhausted q' \<longrightarrow> quality_in_range q')"],
    goal_cases)
  case (1 q a)
  then show ?case by simp
next
  case (2 q a r tr)
  show ?case
  proof
    assume "quality_in_range q"
    then have "list_all event_quality_ok (snd (compressImage env f (loop_options q t)))"
      by (intro compressImage_quality [of _ q]) (simp_all add: loop_options_def)
    then show "list_all event_quality_ok (snd (Returned r, tr)) \<and>
       (\<forall>q'. fst (Returned r, tr) = Exhausted q' \<longrightarrow> quality_in_range q')"
      using 2(2) by simp
  qed
next
  case (3 q a res tr out tr')
  show ?case
  proof
    assume qr: "quality_in_range q"
    then have "list_all event_quality_ok (snd (compressImage env f (loop_options q t)))"
      by (intro compressImage_quality [of _ q]) (simp_all add: loop_options_def)
    then have "list_all event_quality_ok tr" using 3(2) by simp
    then show "list_all event_quality_ok (snd (out, tr @ tr')) \<and>
       (\<forall>q'. fst (out, tr @ tr') = Exhausted q' \<longrightarrow> quality_in_range q')"
      using 3(5) next_quality_in_range [OF qr] by simp
  qed
qed

lemma funpow_upt_Suc:
  "map (\<lambda>k. (g ^^ k) x) [0..<Suc n] = x # map (\<lambda>k. (g ^^ k) (g x)) [0..<n]"
  by (simp only: map_upt_Suc funpow_0 funpow_Suc_right o_apply)

lemma loop_start_qualities:
  "start_qualities (snd (smartCompress_loop env f t q a)) =
     map (\<lambda>k. (next_quality ^^ k) q) [0..<calls (snd (smartCompress_loop env f t q a))]"
proof (rule loop_induct [where P = "\<lambda>q a x. start_qualities (snd x) =
     map (\<lambda>k. (next_quality ^^ k) q) [0..<calls (snd x)]"], goal_cases)
  case (1 q a)
  then show ?case by (simp add: counts_Nil)
next
  case (2 q a r tr)
  have "calls tr = 1" using compressImage_calls [of env f "loop_options q t"] 2(2) by simp
  moreover have "start_qualities tr = [q]"
    using compressImage_start_qualities [of env f "loop_options q t"] 2(2)
    by (simp add: loop_options_def or_default_def)
  ultimately show ?case by simp
next
  case (3 q a res tr out tr')
  have c: "calls tr = 1" using compressImage_calls [of env f "loop_options q t"] 3(2) by simp
  have s: "start_qualities tr = [q]"
    using compressImage_start_qualities [of env f "loop_options q t"] 3(2)
    by (simp add: loop_options_def or_default_def)
  have n: "max (1 / 10) (q * (7 / 10)) = next_quality q"
    by (simp add: next_quality_def mult.commute)
  have ih: "start_qualities tr' = map (\<lambda>k. (next_quality ^^ k) (next_quality q)) [0..<calls tr']"
    using 3(5) by (simp only: n snd_conv)
  have "start_qualities (tr @ tr') = q # map (\<lambda>k. (next_quality ^^ k) (next_quality q)) [0..<calls tr']"
    by (simp only: start_qualities_append s ih append_Cons append_Nil)
  also have "\<dots> = map (\<lambda>k. (next_quality ^^ k) q) [0..<Suc (calls tr')]"
    by (rule funpow_upt_Suc [symmetric])
  finally show ?case by (simp add: counts_append c)
qed

text \<open>
  C9. In every run of \<open>smartCompress\<close> the quality stays within 0.1 and 0.9: every
  quality \<open>compressImage\<close> is called with and every quality handed to the encoder is in
  that range, and so is the last value of \<open>quality\<close> when the loop is left. The loop
  starts at 0.9, and each further attempt uses \<open>max(0.1, 0.7 * q)\<close> of the quality
  \<open>q\<close> before it.
\<close>


theorem quality_stays_in_range:
  "list_all event_quality_ok (snd (smartCompress env f t)) \<and>
   (fst (smartCompress_loop env f t (9 / 10) 0) = Exhausted q' \<longrightarrow> quality_in_range q') \<and>
   start_qualities (snd (smartCompress_loop env f t (9 / 10) 0)) =
     map (\<lambda>k. (next_quality ^^ k) (9 / 10))
       [0..<calls (snd (smartCompress_loop env f t (9 / 10) 0))]"
proof -
  let ?loop = "smartCompress_loop env f t (9 / 10) 0"
  have r: "quality_in_range (9 / 10)" by (simp add: quality_in_range_def)
  have r': "quality_in_range (1 / 10)" by (simp add: quality_in_range_def)
  have l: "list_all event_quality_ok (snd ?loop)"
    and x: "fst ?loop = Exhausted q' \<longrightarrow> quality_in_range q'"
    using loop_quality [of "9 / 10" env f t 0] r by simp_all
  have fb: "list_all event_quality_ok (snd (compressImage env f fallback_options))"
    by (rule compressImage_quality [of _ "1 / 10"]) (simp_all add: fallback_options_def r')
  obtain out tl where o: "?loop = (out, tl)" by (cases ?loop)
  obtain res tf where c: "compressImage env f fallback_options = (res, tf)"
    by (cases "compressImage env f fallback_options")
  have "list_all event_quality_ok (snd (smartCompress env f t))"
    using l fb by (simp add: smartCompress_def o c split: outcome.split sum.split)
  then show ?thesis using x loop_start_qualities [of env f t "9 / 10" 0] by simp
qed


theorem quality_stays_in_range_witness:
  "fst (smartCompress_loop (fixed_size_browser 800 600 600000) (sample_file 700000) 300
      (9 / 10) 0) = Exhausted (151263 / 1000000) \<and>
   quality_in_range (151263 / 1000000) \<and>
   list_all event_quality_ok
     (snd (smartCompress (fixed_size_browser 800 600 600000) (sample_file 700000) 300)) \<and>
   start_qualities (snd (smartCompress_loop (fixed_size_browser 800 600 600000)
      (sample_file 700000) 300 (9 / 10) 0)) =
     [9 / 10, 63 / 100, 441 / 1000, 3087 / 10000, 21609 / 100000]"
proof -
  let ?C = "fixed_size_browser 800 600 600000"
  let ?F = "sample_file 700000"
  have e: "fst (smartCompress_loop ?C ?F 300 (9 / 10) 0) = Exhausted (151263 / 1000000)"
    by (simp add: eval_defs compressImage_def resize_dimensions_def fixed_size_browser_def
        Let_def make_result_def)
  have s: "start_qualities (snd (smartCompress_loop ?C ?F 300 (9 / 10) 0)) =
     [9 / 10, 63 / 100, 441 / 1000, 3087 / 10000, 21609 / 100000]"
    by (simp add: eval_defs compressImage_def resize_dimensions_def fixed_size_browser_def
        Let_def make_result_def)
  show ?thesis
    using quality_stays_in_range [of ?C ?F 300 "151263 / 1000000"] e s by simp
qed

subsection \<open>The dimensions\<close>

lemma resize_within_bounds:
  "w \<le> maxW \<Longrightarrow> h \<le> maxH \<Longrightarrow> resize_dimensions maxW maxH (w, h) = (w, h)"
  by (simp add: resize_dimensions_def)













subsection \<open>An image already below the ceiling\<close>

text \<open>
  C5. When the first encode, at quality 0.9, yields a blob within the ceiling,
  \<open>smartCompress\<close> returns it after exactly one call of \<open>compressImage\<close> and one encode, at
  quality 0.9; the result has the dimensions of the resize step, which are the dimensions
  of the image when both are within the maxima 1920 and 1080.
\<close>


theorem small_image_single_attempt:
  assumes "loadImage env f = Some (w0, h0)"
    and "resize_dimensions 1920 1080 (of_nat w0, of_nat h0) = (w, h)"
    and "toBlob env f w h Jpeg (9 / 10) = Some blob"
    and "of_nat (length blob) / 1024 \<le> t"
  shows "smartCompress env f t =
           (Inr (make_result f Jpeg blob w h),
            [Start (9 / 10) t, Decode, Encode w h Jpeg (9 / 10)]) \<and>
         calls (snd (smartCompress env f t)) = 1 \<and>
         encodes (snd (smartCompress env f t)) = 1 \<and>
         width (make_result f Jpeg blob w h) = w \<and>
         height (make_result f Jpeg blob w h) = h \<and>
         (w0 \<le> 1920 \<and> h0 \<le> 1080 \<longrightarrow> w = of_nat w0 \<and> h = of_nat h0)"
proof -
  have c: "compressImage env f (loop_options (9 / 10) t) =
      (Inr (make_result f Jpeg blob w h), [Start (9 / 10) t, Decode, Encode w h Jpeg (9 / 10)])"
    using compressImage_first_fits [of env f w0 h0 "loop_options (9 / 10) t" w h blob] assms
    by (simp add: loop_options_def or_default_def)
  have "0 \<le> t" using assms(4) by (rule order_trans [rotated]) simp
  then have "t \<le> t * (11 / 10)" by simp
  then have w: "within_tolerance (make_result f Jpeg blob w h) t"
    using assms(4) by (simp add: within_tolerance_def make_result_def)
  have l: "smartCompress_loop env f t (9 / 10) 0 =
      (Returned (make_result f Jpeg blob w h), [Start (9 / 10) t, Decode, Encode w h Jpeg (9 / 10)])"
    by (rule loop_return [OF _ c w]) (simp add: maxAttempts_def)
  have s: "smartCompress env f t =
           (Inr (make_result f Jpeg blob w h),
            [Start (9 / 10) t, Decode, Encode w h Jpeg (9 / 10)])"
    by (simp add: smartCompress_def l)
  have d: "w0 \<le> 1920 \<and> h0 \<le> 1080 \<longrightarrow> w = of_nat w0 \<and> h = of_nat h0"
    using resize_within_bounds [of "of_nat w0" 1920 "of_nat h0" 1080] assms(2) by auto
  show ?thesis using d by (simp add: s calls_def encodes_def make_result_def)
qed

theorem small_image_single_attempt_witness:
  "smartCompress (fixed_size_browser 1500 1000 300000) (sample_file 409600) 500 =
     (Inr (make_result (sample_file 409600) Jpeg (replicate 300000 0) 1500 1000),
      [Start (9 / 10) 500, Decode, Encode 1500 1000 Jpeg (9 / 10)]) \<and>
   smartCompress (fixed_size_browser 1500 1200 300000) (sample_file 409600) 500 =
     (Inr (make_result (sample_file 409600) Jpeg (replicate 300000 0) 1500 1200),
      [Start (9 / 10) 500, Decode, Encode 1500 1200 Jpeg (9 / 10)])"
proof -
  let ?A = "fixed_size_browser 1500 1000 300000"
  let ?B = "fixed_size_browser 1500 1200 300000"
  let ?F = "sample_file 409600"
  have la: "loadImage ?A ?F = Some (1500, 1000)" by (simp add: fixed_size_browser_def)
  have lb: "loadImage ?B ?F = Some (1500, 1200)" by (simp add: fixed_size_browser_def)
  have ra: "resize_dimensions 1920 1080 (of_nat 1500, of_nat 1000) = (1500, 1000)"
    by (simp add: resize_dimensions_def)
  have rb: "resize_dimensions 1920 1080 (of_nat 1500, of_nat 1200) = (1500, 1200)"
    by (simp add: resize_dimensions_def)
  have ta: "toBlob ?A ?F 1500 1000 Jpeg (9 / 10) = Some (replicate 300000 0)"
    by (simp add: fixed_size_browser_def)
  have tb: "toBlob ?B ?F 1500 1200 Jpeg (9 / 10) = Some (replicate 300000 0)"
    by (simp add: fixed_size_browser_def)
  have sz: "rat_of_nat (length (replicate 300000 (0::byte))) / 1024 \<le> 500" by simp
  show ?thesis
    using small_image_single_attempt [OF la ra ta sz] small_image_single_attempt [OF lb rb tb sz]
    by simp
qed

section \<open>Properties of the URL classifiers\<close>

lemma string_includes_sublist: "string_includes url s = sublist s url"
  by (induction url) (simp_all add: sublist_Cons_right)

text \<open>
  C7. The URL classifiers are predicates decided by substring matching:
  \<open>isCloudinaryUrl\<close> holds exactly when the URL contains \<open>cloudinary.com\<close>, and
  \<open>isFirebaseStorageUrl\<close> holds exactly when it contains
  \<open>firebasestorage.googleapis.com\<close> or \<open>firebase\<close>.
\<close>


theorem url_classifiers_match_substrings:
  "(isCloudinaryUrl url \<longleftrightarrow> (\<exists>p r. url = p @ ''cloudinary.com'' @ r)) \<and>
   (isFirebaseStorageUrl url \<longleftrightarrow>
      (\<exists>p r. url = p @ ''firebasestorage.googleapis.com'' @ r) \<or>
      (\<exists>p r. url = p @ ''firebase'' @ r))"
  by (simp add: isCloudinaryUrl_def isFirebaseStorageUrl_def string_includes_sublist sublist_def)

lemma url_classifier_examples:
  "isCloudinaryUrl ''https://res.cloudinary.com/demo/a.jpg''"
  "\<not> isCloudinaryUrl ''https://example.org/a.jpg''"
  "isFirebaseStorageUrl ''https://firebasestorage.googleapis.com/v0/a.jpg''"
  "isFirebaseStorageUrl ''https://my-firebase-mirror.example.org/a.jpg''"
  "\<not> isFirebaseStorageUrl ''https://example.org/a.jpg''"
  by (simp_all add: isCloudinaryUrl_def isFirebaseStorageUrl_def)

section \<open>Properties of the migration\<close>

lemma processed_append: "processed (s @ t) = processed s @ processed t"
  by (induction s rule: processed.induct) simp_all

lemma migrateProduct_processed: "processed (snd (migrateProductToCloudinary env p)) = []"
  by (simp add: migrateProductToCloudinary_def Let_def split: option.split sum.split)

lemma migrate_loop_ok:
  assumes "migrateProductToCloudinary env p = (Inr u, t)"
  shows "migrate_loop env (p # ps) r =
    (fst (migrate_loop env ps (r\<lparr>migrated := migrated r + 1\<rparr>)),
     Processing (product_name p) # t @ (if ps \<noteq> [] then [Wait] else []) @
       snd (migrate_loop env ps (r\<lparr>migrated := migrated r + 1\<rparr>)))"
  using assms by (simp split: prod.split)

lemma migrate_loop_caught:
  assumes "migrateProductToCloudinary env p = (Inl e, t)"
  shows "migrate_loop env (p # ps) r =
    (fst (migrate_loop env ps
       (r\<lparr>failed := failed r + 1,
          errors := errors r @ [\<lparr>product = product_name p, error = errorMessage e\<rparr>]\<rparr>)),
     Processing (product_name p) # t @
       snd (migrate_loop env ps
         (r\<lparr>failed := failed r + 1,
            errors := errors r @ [\<lparr>product = product_name p, error = errorMessage e\<rparr>]\<rparr>)))"
  using assms by (simp split: prod.split)

lemma migrate_loop_processed:
  "processed (snd (migrate_loop env ps r)) = map product_name ps"
proof (induction ps arbitrary: r)
  case Nil
  then show ?case by simp
next
  case (Cons p ps)
  obtain res t where m: "migrateProductToCloudinary env p = (res, t)"
    by (cases "migrateProductToCloudinary env p")
  have t: "processed t = []" using migrateProduct_processed [of env p] m by simp
  show ?case
  proof (cases res)
    case (Inl e)
    then have m': "migrateProductToCloudinary env p = (Inl e, t)" using m by simp
    show ?thesis
      unfolding migrate_loop_caught [OF m'] by (simp add: t processed_append Cons.IH)
  next
    case (Inr u)
    then have m': "migrateProductToCloudinary env p = (Inr u, t)" using m by simp
    show ?thesis
      unfolding migrate_loop_ok [OF m'] by (simp add: t processed_append Cons.IH)
  qed
qed

lemma migrate_loop_results:
  "fst (migrate_loop env ps r) =
     r\<lparr> migrated := migrated r + length (filter (migrates env) ps),
        failed := failed r + length (filter (\<lambda>p. \<not> migrates env p) ps),
        errors := errors r @ map (error_entry env) (filter (\<lambda>p. \<not> migrates env p) ps) \<rparr>"
proof (induction ps arbitrary: r)
  case Nil
  then show ?case by simp
next
  case (Cons p ps)
  obtain res t where m: "migrateProductToCloudinary env p = (res, t)"
    by (cases "migrateProductToCloudinary env p")
  show ?case
  proof (cases res)
    case (Inl e)
    then have m': "migrateProductToCloudinary env p = (Inl e, t)" using m by simp
    have n: "\<not> migrates env p" "error_entry env p = \<lparr>product = product_name p, error = errorMessage e\<rparr>"
      by (simp_all add: migrates_def error_entry_def m')
    show ?thesis
      unfolding migrate_loop_caught [OF m'] by (simp add: n Cons.IH)
  next
    case (Inr u)
    then have m': "migrateProductToCloudinary env p = (Inr u, t)" using m by simp
    have n: "migrates env p" by (simp add: migrates_def m')
    show ?thesis
      unfolding migrate_loop_ok [OF m'] by (simp add: n Cons.IH)
  qed
qed

text \<open>
  C6. In a run of \<open>migrateAllToCloudinary\<close> with the database set and the products
  fetched, a product whose migration throws is counted in \<open>failed\<close> and recorded in
  \<open>errors\<close> with its name and message, and the loop goes on: every product that needs
  migration is processed, in order, \<open>migrated\<close> counts those whose migration returned, and
  when there is a product to migrate \<open>skipped\<close> is the number of the others.
\<close>


theorem batch_continues_after_failure:
  assumes "db env" and "getDocs env = Inr products"
  shows "\<exists>r. fst (migrateAllToCloudinary env) = Inr r \<and>
           total r = length products \<and>
           migrated r = length (filter (migrates env) (filter needs_migration products)) \<and>
           failed r = length (filter (\<lambda>p. \<not> migrates env p) (filter needs_migration products)) \<and>
           errors r = map (error_entry env)
                        (filter (\<lambda>p. \<not> migrates env p) (filter needs_migration products)) \<and>
           processed (snd (migrateAllToCloudinary env)) =
             map product_name (filter needs_migration products) \<and>
           (filter needs_migration products \<noteq> [] \<longrightarrow>
              skipped r = length products - length (filter needs_migration products))"
proof (cases "filter needs_migration products = []")
  case True
  then show ?thesis using assms by (simp add: migrateAllToCloudinary_def)
next
  case False
  let ?ps = "filter needs_migration products"
  let ?r0 = "\<lparr> total = length products, migrated = 0, skipped = 0, failed = 0, errors = [] \<rparr>"
  obtain r t where l: "migrate_loop env ?ps ?r0 = (r, t)" by (cases "migrate_loop env ?ps ?r0")
  have r: "r = ?r0\<lparr> migrated := length (filter (migrates env) ?ps),
        failed := length (filter (\<lambda>p. \<not> migrates env p) ?ps),
        errors := map (error_entry env) (filter (\<lambda>p. \<not> migrates env p) ?ps) \<rparr>"
    using migrate_loop_results [of env ?ps ?r0] l by simp
  have t: "processed t = map product_name ?ps"
    using migrate_loop_processed [of env ?ps ?r0] l by simp
  have "migrateAllToCloudinary env = (Inr (r\<lparr>skipped := total r - length ?ps\<rparr>), t)"
    using assms False by (simp add: migrateAllToCloudinary_def Let_def l)
  then show ?thesis using False by (simp add: r t)
qed

theorem batch_continues_after_failure_witness:
  "db (shop [firebase_product ''A'', firebase_product ''B'', firebase_product ''C''] ''B'') \<and>
   fst (migrateAllToCloudinary
         (shop [firebase_product ''A'', firebase_product ''B'', firebase_product ''C''] ''B'')) =
     Inr \<lparr> total = 3, migrated = 2, skipped = 0, failed = 1,
           errors = [\<lparr>product = ''B'', error = ''upload failed''\<rparr>] \<rparr> \<and>
   processed (snd (migrateAllToCloudinary
         (shop [firebase_product ''A'', firebase_product ''B'', firebase_product ''C''] ''B''))) =
     [''A'', ''B'', ''C'']"
proof -
  let ?ps = "[firebase_product ''A'', firebase_product ''B'', firebase_product ''C'']"
  let ?env = "shop ?ps ''B''"
  have d: "db ?env" "getDocs ?env = Inr ?ps" by (simp_all add: shop_def)
  have n: "needs_migration (firebase_product ''A'')" "needs_migration (firebase_product ''B'')"
    "needs_migration (firebase_product ''C'')"
    by (simp_all add: needs_migration_def firebase_product_def firebase_field_def
        isFirebaseStorageUrl_def)
  have m: "migrates ?env (firebase_product ''A'')" "\<not> migrates ?env (firebase_product ''B'')"
    "migrates ?env (firebase_product ''C'')"
    by (simp_all add: migrates_def migrateProductToCloudinary_def firebase_product_def
        firebase_field_def isFirebaseStorageUrl_def shop_def Let_def)
  have e: "error_entry ?env (firebase_product ''B'') = \<lparr>product = ''B'', error = ''upload failed''\<rparr>"
    by (simp add: error_entry_def migrateProductToCloudinary_def firebase_product_def
        firebase_field_def isFirebaseStorageUrl_def shop_def Let_def)
  have pn: "map product_name ?ps = [''A'', ''B'', ''C'']" by (simp add: firebase_product_def)
  have f: "filter needs_migration ?ps = ?ps" using n by simp
  have g: "filter (migrates ?env) ?ps = [firebase_product ''A'', firebase_product ''C'']"
    "filter (\<lambda>p. \<not> migrates ?env p) ?ps = [firebase_product ''B'']"
    using m by simp_all
  from batch_continues_after_failure [OF d]
  obtain r where r: "fst (migrateAllToCloudinary ?env) = Inr r"
    and 1: "total r = length ?ps"
    and 2: "migrated r = length (filter (migrates ?env) (filter needs_migration ?ps))"
    and 3: "failed r = length (filter (\<lambda>p. \<not> migrates ?env p) (filter needs_migration ?ps))"
    and 4: "errors r = map (error_entry ?env)
                        (filter (\<lambda>p. \<not> migrates ?env p) (filter needs_migration ?ps))"
    and 5: "processed (snd (migrateAllToCloudinary ?env)) =
             map product_name (filter needs_migration ?ps)"
    and 6: "filter needs_migration ?ps \<noteq> [] \<longrightarrow>
              skipped r = length ?ps - length (filter needs_migration ?ps)"
    by blast
  have 1: "total r = 3" using 1 by simp
  have 2: "migrated r = 2" using 2 unfolding f g by simp
  have 3: "failed r = 1" using 3 unfolding f g by simp
  have 4: "errors r = [\<lparr>product = ''B'', error = ''upload failed''\<rparr>]"
    using 4 unfolding f g by (simp add: e)
  have 5: "processed (snd (migrateAllToCloudinary ?env)) = [''A'', ''B'', ''C'']"
    using 5 unfolding f pn .
  have 6: "skipped r = 0" using 6 unfolding f by simp
  have "r = \<lparr> total = 3, migrated = 2, skipped = 0, failed = 1,
           errors = [\<lparr>product = ''B'', error = ''upload failed''\<rparr>] \<rparr>"
    using 1 2 3 4 6 by (cases r) simp
  then show ?thesis using r 5 d by simp
qed


text \<open>
  When at least one product needs migration the counters of the result add up to
  \<open>total\<close>, and \<open>errors\<close> has one entry for each failed product.
\<close>

lemma migrateAll_counts:
  assumes "db env" and "getDocs env = Inr products"
    and "filter needs_migration products \<noteq> []"
  shows "\<exists>r. fst (migrateAllToCloudinary env) = Inr r \<and>
           migrated r + skipped r + failed r = total r \<and> length (errors r) = failed r"
proof -
  let ?ps = "filter needs_migration products"
  let ?r0 = "\<lparr> total = length products, migrated = 0, skipped = 0, failed = 0, errors = [] \<rparr>"
  obtain r t where l: "migrate_loop env ?ps ?r0 = (r, t)" by (cases "migrate_loop env ?ps ?r0")
  have r: "r = ?r0\<lparr> migrated := length (filter (migrates env) ?ps),
        failed := length (filter (\<lambda>p. \<not> migrates env p) ?ps),
        errors := map (error_entry env) (filter (\<lambda>p. \<not> migrates env p) ?ps) \<rparr>"
    using migrate_loop_results [of env ?ps ?r0] l by simp
  have a: "migrateAllToCloudinary env = (Inr (r\<lparr>skipped := total r - length ?ps\<rparr>), t)"
    using assms by (simp add: migrateAllToCloudinary_def Let_def l)
  have "length (filter (migrates env) ?ps) + length (filter (\<lambda>p. \<not> migrates env p) ?ps) = length ?ps"
    by (rule sum_length_filter_compl)
  moreover have "length ?ps \<le> length products" by (rule length_filter_le)
  ultimately have s: "length (filter (migrates env) ?ps) + (length products - length ?ps) +
      length (filter (\<lambda>p. \<not> migrates env p) ?ps) = length products"
    by linarith
  show ?thesis using s by (simp add: a r del: filter_filter)
qed

text \<open>
  C10. With one product, already on Cloudinary, the run returns at the early
  \<open>return results\<close> with \<open>total\<close> 1 and \<open>skipped\<close> still 0: the three counters sum to 0,
  not to \<open>total\<close>.
\<close>


theorem early_return_leaves_skipped_zero:
  "fst (migrateAllToCloudinary (shop [cloudinary_product ''A''] ''B'')) =
     Inr \<lparr> total = 1, migrated = 0, skipped = 0, failed = 0, errors = [] \<rparr>"
  by (simp add: migrateAllToCloudinary_def shop_def needs_migration_def cloudinary_product_def
      firebase_field_def isFirebaseStorageUrl_def)

end
